theory Spec2Isabelle
  imports Complex_Main "HOL-Library.Word" "HOL-Library.Log_Nat"
begin

section \<open>Fibre laser controller: a model of FibreLaserController.ino\<close>

text \<open>
  The sketch drives the DB25 control port of a fibre laser from one dial and one
  three-position switch. The model follows the source function by function. Every
  function of the sketch becomes a HOL function that returns the sequence of atomic
  effects (\<open>op\<close>) the call performs, in program order; \<open>exec\<close> gives the effect of one
  operation on the machine state and \<open>run\<close> executes a sequence. The two timer
  callbacks run at interrupt level, so the reachable states interleave them with the
  operations of the main loop (\<open>reach\<close>).
\<close>

subsection \<open>Pins, levels and inputs\<close>

datatype level = LOW | HIGH

text \<open>The pin macros of the sketch (\<open>#define ActionSwitchPin1 1\<close> and so on).\<close>

datatype pin =
    ActionSwitchPin1 | ActionSwitchPin2 | ExternalLEDPin | AlarmLSBPin | AlarmMSBPin
  | LaserPowerBit0Pin | LaserPowerBit1Pin | LaserPowerBit2Pin | LaserPowerBit3Pin
  | LaserPowerBit4Pin | LaserPowerBit5Pin | LaserPowerBit6Pin | InternalLEDPin
  | LaserPowerBit7Pin | LaserMOSignalPin | LaserONSignalPin | LaserPulsesPin
  | LaserGuidePin | LaserTriggerPin | DialInputPin | DisplayOutputPin

text \<open>The functions handed to \<open>IntervalTimer.begin\<close>.\<close>

datatype callback = CB_LaserPulseGenerator | CB_AlarmLEDFlasher

text \<open>
  What one pass of \<open>loop\<close> reads from the outside world: the two alarm pins
  (\<open>digitalReadFast\<close>), the two debounced switches (\<open>ActionBounce1.read()\<close>,
  \<open>ActionBounce2.read()\<close>), the dial (\<open>analogRead\<close> at 8-bit resolution, stored in a
  \<open>uint8_t\<close>) and whether the one-second serial metronome is due
  (\<open>serialMetro.check() == 1\<close>).
\<close>

record inputs =
  AlarmLSB :: level
  AlarmMSB :: level
  ActionBounce1 :: level
  ActionBounce2 :: level
  Dial :: "8 word"
  serialMetro_check :: bool

subsection \<open>Floating point\<close>

text \<open>
  \<open>float\<close> and \<open>double\<close> values are rationals, and every arithmetic operation and
  conversion is followed by the rounding to the format of its C++ type, to nearest with
  ties to even: \<open>fl 24\<close> rounds to the 24-bit significand of IEEE-754 binary32
  (\<open>float\<close>), \<open>fl 53\<close> to binary64 (\<open>double\<close>, the type of an unsuffixed literal such as
  \<open>0.156863\<close>). The exponent is unbounded in the model: overflow and subnormal numbers
  are not represented (the values the sketch computes at its own call sites lie
  between 0 and 1000).
\<close>

definition rne :: "rat \<Rightarrow> int" where
  "rne x = (let f = \<lfloor>x\<rfloor>; d = x - of_int f in
            if d < 1 / 2 then f else if 1 / 2 < d then f + 1
            else if even f then f else f + 1)"

definition pow2 :: "int \<Rightarrow> rat" where
  "pow2 e = (if 0 \<le> e then 2 ^ nat e else 1 / 2 ^ nat (- e))"

text \<open>\<open>ilog2 x\<close> is the binary exponent of a positive \<open>x\<close>: \<open>2 ^ e \<le> x < 2 ^ (e + 1)\<close>.\<close>

definition ilog2 :: "rat \<Rightarrow> int" where
  "ilog2 x = (if 1 \<le> x then int (floorlog 2 (nat \<lfloor>x\<rfloor>)) - 1
              else - int (floorlog 2 (nat (\<lceil>1 / x\<rceil> - 1))))"

definition fl :: "nat \<Rightarrow> rat \<Rightarrow> rat" where
  "fl p x = (if x = 0 then 0
             else let u = pow2 (ilog2 \<bar>x\<bar> - int p + 1) in of_int (rne (x / u)) * u)"

text \<open>
  The cast \<open>(int)Value\<close> discards the fractional part (truncation towards zero). C++
  defines it only when the truncated value fits the 32-bit \<open>int\<close>, that is for
  \<open>- 2 ^ 31 - 1 < Value < 2 ^ 31\<close>; \<open>c_int\<close> is the cast on that range, where it returns a
  value between \<open>- 2 ^ 31\<close> and \<open>2 ^ 31 - 1\<close>. Outside it the function keeps returning the
  truncated value, which says nothing about the program; statements about \<open>c_int\<close> carry
  the range as a hypothesis.
\<close>

definition c_int :: "rat \<Rightarrow> int" where
  "c_int x = (if 0 \<le> x then \<lfloor>x\<rfloor> else \<lceil>x\<rceil>)"

subsection \<open>Machine state and atomic operations\<close>

text \<open>
  The globals of the sketch, the levels driven on the digital pins, the value last
  written to the analog display output, the configuration of the two interval timers
  (the callback and the period in microseconds of the last \<open>begin\<close>), the lines printed
  on the serial port and the milliseconds spent in \<open>delay\<close>.
\<close>

record state =
  pins :: "pin \<Rightarrow> level"
  analog :: "pin \<Rightarrow> int"
  LaserPulseTimer :: "(callback \<times> rat) option"
  AlarmLEDFlashTimer :: "(callback \<times> rat) option"
  LaserPulsePeriod :: rat
  OperatingMode :: "8 word"
  EnableLaserTrigger :: "8 word"
  LaserPower :: "8 word"
  AlarmState :: string
  serial :: "(string \<times> 8 word \<times> 8 word) list"
  millis :: nat

datatype op =
    DigitalWrite pin level
  | AnalogWrite pin int
  | Delay nat
  | Begin_LaserPulseTimer callback rat
  | Begin_AlarmLEDFlashTimer callback rat
  | Set_LaserPulsePeriod rat
  | Set_OperatingMode "8 word"
  | Set_EnableLaserTrigger "8 word"
  | Set_LaserPower "8 word"
  | Set_AlarmState string
  | SerialPrintln string "8 word" "8 word"

fun exec :: "op \<Rightarrow> state \<Rightarrow> state" where
  "exec (DigitalWrite p v) s = s\<lparr>pins := (pins s)(p := v)\<rparr>"
| "exec (AnalogWrite p v) s = s\<lparr>analog := (analog s)(p := v)\<rparr>"
| "exec (Delay n) s = s\<lparr>millis := millis s + n\<rparr>"
| "exec (Begin_LaserPulseTimer f t) s = s\<lparr>LaserPulseTimer := Some (f, t)\<rparr>"
| "exec (Begin_AlarmLEDFlashTimer f t) s = s\<lparr>AlarmLEDFlashTimer := Some (f, t)\<rparr>"
| "exec (Set_LaserPulsePeriod t) s = s\<lparr>LaserPulsePeriod := t\<rparr>"
| "exec (Set_OperatingMode m) s = s\<lparr>OperatingMode := m\<rparr>"
| "exec (Set_EnableLaserTrigger g) s = s\<lparr>EnableLaserTrigger := g\<rparr>"
| "exec (Set_LaserPower v) s = s\<lparr>LaserPower := v\<rparr>"
| "exec (Set_AlarmState a) s = s\<lparr>AlarmState := a\<rparr>"
| "exec (SerialPrintln a p m) s = s\<lparr>serial := serial s @ [(a, p, m)]\<rparr>"

definition run :: "op list \<Rightarrow> state \<Rightarrow> state" where
  "run ops s = fold exec ops s"

text \<open>
  The time, in milliseconds of \<open>delay\<close>, at which each operation of a sequence starts.
  Only \<open>delay\<close> takes time in the model; the other statements take microseconds on the
  hardware.
\<close>

fun stamp :: "nat \<Rightarrow> op list \<Rightarrow> (nat \<times> op) list" where
  "stamp t [] = []"
| "stamp t (Delay n # ops) = (t, Delay n) # stamp (t + n) ops"
| "stamp t (a # ops) = (t, a) # stamp t ops"

text \<open>
  The operations that bear on the two laser enable signals: a write to the MO-enable
  pin or to the ON-enable pin, and an assignment to the trigger gate.
\<close>

fun laser_enable_op :: "op \<Rightarrow> bool" where
  "laser_enable_op (DigitalWrite p v) = (p = LaserMOSignalPin \<or> p = LaserONSignalPin)"
| "laser_enable_op (Set_EnableLaserTrigger g) = True"
| "laser_enable_op _ = False"

subsection \<open>The sketch\<close>

text \<open>\<open>float DisplayMultiplier = 1.240909;\<close> (never assigned afterwards).\<close>

definition DisplayMultiplier :: rat where
  "DisplayMultiplier = fl 24 (fl 53 (1240909 / 1000000))"

text \<open>
  \<open>DisplayOutput\<close>: \<open>Value = Value * DisplayMultiplier\<close> in \<open>float\<close>, then
  \<open>analogWrite(DisplayOutputPin, (int)Value)\<close>.
\<close>

definition DisplayOutput :: "rat \<Rightarrow> op list" where
  "DisplayOutput Value =
     (let Value = fl 24 (Value * DisplayMultiplier)
      in [AnalogWrite DisplayOutputPin (c_int Value)])"

text \<open>
  \<open>LaserPulseGenerator\<close>, the callback of \<open>LaserPulseTimer\<close>. It reads the level it
  drives on the pulse pin and the trigger gate.
\<close>

definition LaserPulseGenerator :: "state \<Rightarrow> op list" where
  "LaserPulseGenerator s =
     [if pins s LaserPulsesPin = HIGH then DigitalWrite LaserPulsesPin LOW
      else DigitalWrite LaserPulsesPin HIGH,
      if EnableLaserTrigger s = 0 then DigitalWrite LaserONSignalPin HIGH
      else DigitalWrite LaserONSignalPin LOW]"

text \<open>\<open>AlarmLEDFlasher\<close>, the callback of \<open>AlarmLEDFlashTimer\<close>.\<close>

definition AlarmLEDFlasher :: "state \<Rightarrow> op list" where
  "AlarmLEDFlasher s =
     [if pins s ExternalLEDPin = HIGH then DigitalWrite ExternalLEDPin LOW
      else DigitalWrite ExternalLEDPin HIGH]"

fun callback_ops :: "callback \<Rightarrow> state \<Rightarrow> op list" where
  "callback_ops CB_LaserPulseGenerator s = LaserPulseGenerator s"
| "callback_ops CB_AlarmLEDFlasher s = AlarmLEDFlasher s"

text \<open>
  \<open>SerialOutputFunction\<close> prints the alarm label, the power level and the mode on one
  line; the model records the three values printed.
\<close>

definition SerialOutputFunction :: "state \<Rightarrow> 8 word \<Rightarrow> op list" where
  "SerialOutputFunction s Mode = [SerialPrintln (AlarmState s) (LaserPower s) Mode]"

text \<open>
  \<open>GetModeFunction\<close> returns the operations it performs (the start-up sequence, or
  nothing) and the mode it returns.
\<close>

definition GetModeFunction :: "inputs \<Rightarrow> 8 word \<Rightarrow> op list \<times> 8 word" where
  "GetModeFunction inp CurrentMode =
     (if AlarmLSB inp = HIGH then
        (if AlarmMSB inp = HIGH then ([], 5) else ([], 4))
      else if AlarmMSB inp \<noteq> HIGH then ([], 3)
      else
        let NewMode = (if ActionBounce1 inp = LOW then 0
                       else if ActionBounce2 inp = LOW then 2
                       else 1 :: 8 word)
        in if NewMode = 0 \<and> (CurrentMode = 1 \<or> CurrentMode = 2)
           then ([DigitalWrite LaserMOSignalPin LOW, Delay 5,
                  DigitalWrite LaserONSignalPin LOW], NewMode)
           else ([], NewMode))"

text \<open>
  One of the eight blocks of \<open>SetPowerLevel\<close>: compare \<open>TemporaryLaserPower\<close> with the
  weight of the bit, drive the pin and subtract the weight when the bit is set.
\<close>

definition PowerBit :: "pin \<Rightarrow> 8 word \<Rightarrow> 8 word \<Rightarrow> op list \<times> 8 word" where
  "PowerBit p w TemporaryLaserPower =
     (if w \<le> TemporaryLaserPower
      then ([DigitalWrite p LOW], TemporaryLaserPower - w)
      else ([DigitalWrite p HIGH], TemporaryLaserPower))"

definition SetPowerLevel :: "inputs \<Rightarrow> op list" where
  "SetPowerLevel inp =
     (let LaserPower = Dial inp;
          (o7, t7) = PowerBit LaserPowerBit7Pin 128 LaserPower;
          (o6, t6) = PowerBit LaserPowerBit6Pin 64 t7;
          (o5, t5) = PowerBit LaserPowerBit5Pin 32 t6;
          (o4, t4) = PowerBit LaserPowerBit4Pin 16 t5;
          (o3, t3) = PowerBit LaserPowerBit3Pin 8 t4;
          (o2, t2) = PowerBit LaserPowerBit2Pin 4 t3;
          (o1, t1) = PowerBit LaserPowerBit1Pin 2 t2;
          (o0, t0) = PowerBit LaserPowerBit0Pin 1 t1
      in Set_LaserPower LaserPower
         # DisplayOutput (fl 24 (fl 53 (fl 53 (117641 / 100000) * of_nat (unat LaserPower))))
         @ o7 @ o6 @ o5 @ o4 @ o3 @ o2 @ o1 @ o0)"

text \<open>
  \<open>SetPulseRate\<close>: \<open>(0.156863 * PulseFrequency) + 25\<close> is computed in \<open>double\<close> and
  stored in the \<open>float Frequency\<close>; \<open>500 / Frequency\<close> and \<open>Frequency * 10\<close> are
  \<open>float\<close> operations.
\<close>

definition Frequency_of :: "8 word \<Rightarrow> rat" where
  "Frequency_of PulseFrequency =
     fl 24 (fl 53 (fl 53 (fl 53 (156863 / 1000000) * of_nat (unat PulseFrequency)) + 25))"

definition SetPulseRate :: "inputs \<Rightarrow> op list" where
  "SetPulseRate inp =
     (let PulseFrequency = Dial inp;
          Frequency = Frequency_of PulseFrequency;
          LaserPulsePeriod = fl 24 (500 / Frequency)
      in [Set_LaserPulsePeriod LaserPulsePeriod,
          Begin_LaserPulseTimer CB_LaserPulseGenerator LaserPulsePeriod]
         @ DisplayOutput (fl 24 (Frequency * 10)))"

definition AlarmActions :: "8 word \<Rightarrow> op list" where
  "AlarmActions Mode =
     [Begin_AlarmLEDFlashTimer CB_AlarmLEDFlasher 1000000]
     @ DisplayOutput 0
     @ [Set_EnableLaserTrigger 0,
        DigitalWrite LaserONSignalPin HIGH,
        Delay 1,
        DigitalWrite LaserMOSignalPin HIGH,
        if Mode = 3 then Set_AlarmState ''Temperature''
        else if Mode = 4 then Set_AlarmState ''High Reflection''
        else if Mode = 5 then Set_AlarmState ''MO''
        else Set_AlarmState ''Reserved Mode'']"

definition ModeRunFunction :: "inputs \<Rightarrow> 8 word \<Rightarrow> op list" where
  "ModeRunFunction inp Mode =
     (if Mode = 0 then
        [DigitalWrite LaserMOSignalPin LOW,
         DigitalWrite LaserONSignalPin LOW]
        @ SetPowerLevel inp
        @ [DigitalWrite ExternalLEDPin HIGH]
      else if Mode = 1 then
        [Set_EnableLaserTrigger 0,
         DigitalWrite LaserONSignalPin HIGH,
         Delay 1,
         DigitalWrite LaserMOSignalPin HIGH]
        @ SetPowerLevel inp
        @ [DigitalWrite ExternalLEDPin LOW]
      else if Mode = 2 then
        [Set_EnableLaserTrigger 0,
         DigitalWrite LaserONSignalPin HIGH,
         Delay 1,
         DigitalWrite LaserMOSignalPin HIGH]
        @ SetPulseRate inp
        @ [DigitalWrite ExternalLEDPin LOW]
      else if Mode = 3 then AlarmActions Mode
      else if Mode = 4 then AlarmActions Mode
      else if Mode = 5 then AlarmActions Mode
      else AlarmActions Mode)"

text \<open>
  One pass of \<open>loop\<close>, started in state \<open>s\<close>. The pass reads \<open>OperatingMode\<close>, the
  internal LED and the values it prints from the state; no interrupt callback writes
  any of them.
\<close>

definition loop :: "inputs \<Rightarrow> state \<Rightarrow> op list" where
  "loop inp s =
     (if serialMetro_check inp then
        SerialOutputFunction s (OperatingMode s)
        @ [if pins s InternalLEDPin = HIGH then DigitalWrite InternalLEDPin LOW
           else DigitalWrite InternalLEDPin HIGH]
      else [])
     @ (let (ops, NewMode) = GetModeFunction inp (OperatingMode s)
        in ops @ [Set_OperatingMode NewMode] @ ModeRunFunction inp NewMode)"

text \<open>
  The state at power-on: the globals as initialised by their declarations, no timer
  started, and pin levels \<open>p\<close> and analog outputs \<open>a\<close> that the sketch has not driven yet.
\<close>

definition boot :: "(pin \<Rightarrow> level) \<Rightarrow> (pin \<Rightarrow> int) \<Rightarrow> state" where
  "boot p a =
     \<lparr>pins = p, analog = a, LaserPulseTimer = None, AlarmLEDFlashTimer = None,
      LaserPulsePeriod = 25 / 2, OperatingMode = 7, EnableLaserTrigger = 0,
      LaserPower = 0, AlarmState = ''NONE'', serial = [], millis = 0\<rparr>"

text \<open>
  The function \<open>setup\<close> of the sketch: the levels written to the output pins and the
  start of the pulse timer.
  The calls that only configure a peripheral (\<open>pinMode\<close>, the analog resolutions and
  reference, \<open>Serial.begin\<close>, the debouncers) change nothing in the state of the model.
\<close>

definition setup_ops :: "op list" where
  "setup_ops =
     [DigitalWrite ExternalLEDPin LOW,
      DigitalWrite LaserPowerBit0Pin HIGH,
      DigitalWrite LaserPowerBit1Pin HIGH,
      DigitalWrite LaserPowerBit2Pin HIGH,
      DigitalWrite LaserPowerBit3Pin HIGH,
      DigitalWrite LaserPowerBit4Pin HIGH,
      DigitalWrite LaserPowerBit5Pin HIGH,
      DigitalWrite LaserPowerBit6Pin HIGH,
      DigitalWrite LaserPowerBit7Pin HIGH,
      DigitalWrite InternalLEDPin LOW,
      DigitalWrite LaserMOSignalPin HIGH,
      DigitalWrite LaserONSignalPin HIGH,
      DigitalWrite LaserPulsesPin HIGH,
      DigitalWrite LaserGuidePin LOW,
      Begin_LaserPulseTimer CB_LaserPulseGenerator (25 / 2)]"

text \<open>
  The configurations the system can reach: a state together with the operations of the
  current pass of \<open>loop\<close> that are still to run. The main program executes its next
  operation or, at the end of a pass, starts the next one with any inputs; at any
  point a timer that has been started may fire and run its callback to completion.
\<close>

inductive reach :: "state \<Rightarrow> op list \<Rightarrow> bool" where
  start: "reach (run setup_ops (boot p a)) []"
| step: "reach s (x # ops) \<Longrightarrow> reach (exec x s) ops"
| pass: "reach s [] \<Longrightarrow> reach s (loop inp s)"
| pulse_tick: "reach s ops \<Longrightarrow> LaserPulseTimer s = Some (f, t) \<Longrightarrow>
     reach (run (callback_ops f s) s) ops"
| flash_tick: "reach s ops \<Longrightarrow> AlarmLEDFlashTimer s = Some (f, t) \<Longrightarrow>
     reach (run (callback_ops f s) s) ops"

section \<open>Properties\<close>

lemma level_not_HIGH [simp]: "(v \<noteq> HIGH) = (v = LOW)"
  by (cases v) simp_all

lemma run_Cons [simp]: "run (x # ops) s = run ops (exec x s)"
  by (simp add: run_def)

lemma run_Nil [simp]: "run [] s = s"
  by (simp add: run_def)

lemma run_append [simp]: "run (xs @ ys) s = run ys (run xs s)"
  by (simp add: run_def)

subsection \<open>Mode selection\<close>

text \<open>
  C3. Whatever the current mode, the switches, the dial and the serial metronome are,
  \<open>GetModeFunction\<close> maps the alarm bits as the table says: LSB and MSB both high give
  mode 5 (MO alarm), LSB high and MSB low give mode 4 (reflection alarm), both low give
  mode 3 (temperature alarm), each without any output operation and whatever the
  switches read; only LSB low with MSB high goes on to the switches, and the mode
  returned there is the one the switches select: 0 when switch 1 reads low, otherwise 2
  when switch 2 reads low, otherwise 1.
\<close>

theorem GetModeFunction_alarm_table:
  "GetModeFunction \<lparr>AlarmLSB = HIGH, AlarmMSB = HIGH, ActionBounce1 = sw1,
       ActionBounce2 = sw2, Dial = d, serialMetro_check = sm\<rparr> CurrentMode = ([], 5)
   \<and> GetModeFunction \<lparr>AlarmLSB = HIGH, AlarmMSB = LOW, ActionBounce1 = sw1,
       ActionBounce2 = sw2, Dial = d, serialMetro_check = sm\<rparr> CurrentMode = ([], 4)
   \<and> GetModeFunction \<lparr>AlarmLSB = LOW, AlarmMSB = LOW, ActionBounce1 = sw1,
       ActionBounce2 = sw2, Dial = d, serialMetro_check = sm\<rparr> CurrentMode = ([], 3)
   \<and> snd (GetModeFunction \<lparr>AlarmLSB = LOW, AlarmMSB = HIGH, ActionBounce1 = sw1,
       ActionBounce2 = sw2, Dial = d, serialMetro_check = sm\<rparr> CurrentMode) =
       (if sw1 = LOW then 0 else if sw2 = LOW then 2 else 1)"
  by (simp add: GetModeFunction_def Let_def)

text \<open>
  C9. With no alarm indicated (LSB low, MSB high) the mode returned by
  \<open>GetModeFunction\<close> is chosen by the switches, switch 1 first: mode 0 (ON) when
  switch 1 reads low, otherwise mode 2 (OFF, set rate) when switch 2 reads low,
  otherwise mode 1 (IDLE).
\<close>

theorem GetModeFunction_switch_priority:
  assumes "AlarmLSB inp = LOW" and "AlarmMSB inp = HIGH"
  shows "snd (GetModeFunction inp CurrentMode) =
           (if ActionBounce1 inp = LOW then 0
            else if ActionBounce2 inp = LOW then 2 else 1)"
  using assms by (simp add: GetModeFunction_def Let_def)

theorem GetModeFunction_switch_priority_witness:
  "snd (GetModeFunction \<lparr>AlarmLSB = LOW, AlarmMSB = HIGH, ActionBounce1 = LOW,
       ActionBounce2 = LOW, Dial = 0, serialMetro_check = False\<rparr> 1) = 0
   \<and> snd (GetModeFunction \<lparr>AlarmLSB = LOW, AlarmMSB = HIGH, ActionBounce1 = HIGH,
       ActionBounce2 = LOW, Dial = 0, serialMetro_check = False\<rparr> 1) = 2
   \<and> snd (GetModeFunction \<lparr>AlarmLSB = LOW, AlarmMSB = HIGH, ActionBounce1 = HIGH,
       ActionBounce2 = HIGH, Dial = 0, serialMetro_check = False\<rparr> 1) = 1"
  using
    GetModeFunction_switch_priority [of "\<lparr>AlarmLSB = LOW, AlarmMSB = HIGH,
       ActionBounce1 = LOW, ActionBounce2 = LOW, Dial = 0, serialMetro_check = False\<rparr>" 1]
    GetModeFunction_switch_priority [of "\<lparr>AlarmLSB = LOW, AlarmMSB = HIGH,
       ActionBounce1 = HIGH, ActionBounce2 = LOW, Dial = 0, serialMetro_check = False\<rparr>" 1]
    GetModeFunction_switch_priority [of "\<lparr>AlarmLSB = LOW, AlarmMSB = HIGH,
       ActionBounce1 = HIGH, ActionBounce2 = HIGH, Dial = 0, serialMetro_check = False\<rparr>" 1]
  by simp

subsection \<open>The pulse generator\<close>

text \<open>
  C7. Every invocation of \<open>LaserPulseGenerator\<close> inverts the level of the pulse output
  and, in the same invocation, drives the laser ON-enable output high (de-asserted)
  when the trigger gate is 0 and low (asserted) when the gate is not 0; it changes
  nothing else.
\<close>

theorem LaserPulseGenerator_toggles_and_gates:
  "run (LaserPulseGenerator s) s =
     s\<lparr>pins := (pins s)
        (LaserPulsesPin := (if pins s LaserPulsesPin = HIGH then LOW else HIGH),
         LaserONSignalPin := (if EnableLaserTrigger s = 0 then HIGH else LOW))\<rparr>
   \<and> pins (run (LaserPulseGenerator s) s) LaserPulsesPin \<noteq> pins s LaserPulsesPin"
  by (simp add: LaserPulseGenerator_def run_def)

subsection \<open>The power level\<close>

text \<open>
  Before the block for bit \<open>k\<close> runs, \<open>TemporaryLaserPower\<close> holds the low \<open>k + 1\<close> bits
  of the dial value; the block drives its pin low exactly when bit \<open>k\<close> is set and
  leaves the low \<open>k\<close> bits.
\<close>

lemma unat_take_bit_less: "unat (take_bit k (v :: 8 word)) < 2 ^ k"
  by (simp add: unsigned_take_bit_eq)

lemma unat_take_bit_Suc:
  fixes v :: "8 word"
  assumes "k < 8"
  shows "unat (take_bit (Suc k) v) = 2 ^ k * of_bool (bit v k) + unat (take_bit k v)"
  using assms
  by (simp only: unsigned_take_bit_eq take_bit_Suc_from_most [of k "unat v"])
     (simp add: bit_unsigned_iff)

lemma PowerBit_step:
  fixes v :: "8 word"
  assumes "k < 8"
  shows "PowerBit p (2 ^ k) (take_bit (Suc k) v) =
           ([DigitalWrite p (if bit v k then LOW else HIGH)], take_bit k v)"
proof -
  note e = unat_take_bit_Suc [OF assms, of v]
  have "k \<in> {0, 1, 2, 3, 4, 5, 6, 7}"
    using assms by auto
  then have p: "unat (2 ^ k :: 8 word) = 2 ^ k"
    by auto
  show ?thesis
  proof (cases "bit v k")
    case True
    then have le: "(2 ^ k :: 8 word) \<le> take_bit (Suc k) v"
      using e p by (simp add: word_le_nat_alt)
    then have "unat (take_bit (Suc k) v - 2 ^ k) = unat (take_bit k v)"
      using e p True by (simp add: unat_sub)
    then have "take_bit (Suc k) v - 2 ^ k = take_bit k v"
      by (simp add: word_unat_eq_iff)
    then show ?thesis
      using True le by (simp add: PowerBit_def)
  next
    case False
    then have "unat (take_bit (Suc k) v) = unat (take_bit k v)"
      using e by simp
    then have "take_bit (Suc k) v = take_bit k v"
      by (simp add: word_unat_eq_iff)
    moreover have "\<not> (2 ^ k :: 8 word) \<le> take_bit k v"
      using unat_take_bit_less [of k v] p by (simp add: word_le_nat_alt)
    ultimately show ?thesis
      using False by (simp add: PowerBit_def)
  qed
qed

lemma PowerBit_chain:
  fixes v :: "8 word"
  shows "PowerBit p7 128 v = ([DigitalWrite p7 (if bit v 7 then LOW else HIGH)], take_bit 7 v)"
    and "PowerBit p6 64 (take_bit 7 v) = ([DigitalWrite p6 (if bit v 6 then LOW else HIGH)], take_bit 6 v)"
    and "PowerBit p5 32 (take_bit 6 v) = ([DigitalWrite p5 (if bit v 5 then LOW else HIGH)], take_bit 5 v)"
    and "PowerBit p4 16 (take_bit 5 v) = ([DigitalWrite p4 (if bit v 4 then LOW else HIGH)], take_bit 4 v)"
    and "PowerBit p3 8 (take_bit 4 v) = ([DigitalWrite p3 (if bit v 3 then LOW else HIGH)], take_bit 3 v)"
    and "PowerBit p2 4 (take_bit 3 v) = ([DigitalWrite p2 (if bit v 2 then LOW else HIGH)], take_bit 2 v)"
    and "PowerBit p1 2 (take_bit 2 v) = ([DigitalWrite p1 (if bit v 1 then LOW else HIGH)], take_bit 1 v)"
    and "PowerBit p0 1 (take_bit 1 v) = ([DigitalWrite p0 (if bit v 0 then LOW else HIGH)], take_bit 0 v)"
  using PowerBit_step [of 7 p7 v] PowerBit_step [of 6 p6 v] PowerBit_step [of 5 p5 v]
    PowerBit_step [of 4 p4 v] PowerBit_step [of 3 p3 v] PowerBit_step [of 2 p2 v]
    PowerBit_step [of 1 p1 v] PowerBit_step [of 0 p0 v]
  by (simp_all add: numeral_2_eq_2 numeral_3_eq_3 eval_nat_numeral take_bit_word_eq_self)


lemma SetPowerLevel_ops:
  "SetPowerLevel inp =
     Set_LaserPower (Dial inp)
     # DisplayOutput (fl 24 (fl 53 (fl 53 (117641 / 100000) * of_nat (unat (Dial inp)))))
     @ [DigitalWrite LaserPowerBit7Pin (if bit (Dial inp) 7 then LOW else HIGH),
        DigitalWrite LaserPowerBit6Pin (if bit (Dial inp) 6 then LOW else HIGH),
        DigitalWrite LaserPowerBit5Pin (if bit (Dial inp) 5 then LOW else HIGH),
        DigitalWrite LaserPowerBit4Pin (if bit (Dial inp) 4 then LOW else HIGH),
        DigitalWrite LaserPowerBit3Pin (if bit (Dial inp) 3 then LOW else HIGH),
        DigitalWrite LaserPowerBit2Pin (if bit (Dial inp) 2 then LOW else HIGH),
        DigitalWrite LaserPowerBit1Pin (if bit (Dial inp) 1 then LOW else HIGH),
        DigitalWrite LaserPowerBit0Pin (if bit (Dial inp) 0 then LOW else HIGH)]"
  unfolding SetPowerLevel_def Let_def PowerBit_chain split_conv by simp

text \<open>
  C4. For every 8-bit dial value, after \<open>SetPowerLevel\<close> has run the stored
  \<open>LaserPower\<close> is the dial value, and each of the eight power outputs, bit 0 to bit 7,
  is low exactly when the bit of that position is 1 in the dial value and high
  otherwise.
\<close>

theorem SetPowerLevel_active_low_binary:
  "LaserPower (run (SetPowerLevel inp) s) = Dial inp
   \<and> map (pins (run (SetPowerLevel inp) s))
        [LaserPowerBit0Pin, LaserPowerBit1Pin, LaserPowerBit2Pin, LaserPowerBit3Pin,
         LaserPowerBit4Pin, LaserPowerBit5Pin, LaserPowerBit6Pin, LaserPowerBit7Pin]
     = map (\<lambda>i. if bit (Dial inp) i then LOW else HIGH) [0, 1, 2, 3, 4, 5, 6, 7]"
  by (simp add: SetPowerLevel_ops DisplayOutput_def)

subsection \<open>Rounding\<close>

text \<open>
  \<open>ilog2\<close> is the binary exponent, so \<open>fl p\<close> rounds to a multiple of the unit in the
  last place of a \<open>p\<close>-bit significand; its relative error is at most \<open>2 ^ - p\<close>.
\<close>

lemma rne_error: "\<bar>of_int (rne x) - x\<bar> \<le> 1 / 2"
proof -
  have "of_int \<lfloor>x\<rfloor> \<le> x" and "x < of_int \<lfloor>x\<rfloor> + 1"
    by linarith+
  then show ?thesis
    by (auto simp: rne_def Let_def abs_le_iff)
qed

lemma pow2_powi: "pow2 e = 2 powi e"
  by (simp add: pow2_def power_int_def power_inverse inverse_eq_divide power_one_over)

lemma pow2_pos: "0 < pow2 e"
  by (simp add: pow2_def)

lemma ilog2_lower:
  assumes "0 < x"
  shows "pow2 (ilog2 x) \<le> x"
proof (cases "1 \<le> x")
  case True
  define n where "n = nat \<lfloor>x\<rfloor>"
  have n: "0 < n" "of_nat n \<le> x"
    using True by (simp_all add: n_def) 
  have L: "2 ^ (floorlog 2 n - 1) \<le> n"
    using floorlog_bounds [of n 2] n by simp
  have "0 < floorlog 2 n"
    using n by (simp add: floorlog_def)
  then have "pow2 (ilog2 x) = 2 ^ (floorlog 2 n - 1)"
    using True by (simp add: ilog2_def pow2_def n_def nat_diff_distrib)
  also have "\<dots> \<le> of_nat n"
    using L by (metis of_nat_le_iff of_nat_numeral of_nat_power)
  finally show ?thesis
    using n by simp
next
  case False
  define m where "m = nat (\<lceil>1 / x\<rceil> - 1)"
  have "1 < 1 / x"
    using False assms by simp
  then have c: "2 \<le> \<lceil>1 / x\<rceil>"
    by linarith
  have mi: "int m = \<lceil>1 / x\<rceil> - 1"
    unfolding m_def using c by (intro nat_0_le) linarith
  then have "0 < m"
    using c by linarith
  then have "m < 2 ^ floorlog 2 m"
    using floorlog_bounds [of m 2] by simp
  then have "m + 1 \<le> 2 ^ floorlog 2 m"
    by simp
  then have "int (m + 1) \<le> int (2 ^ floorlog 2 m)"
    by (simp only: of_nat_le_iff)
  moreover have "int (2 ^ floorlog 2 m) = 2 ^ floorlog 2 m"
    by simp
  ultimately have "\<lceil>1 / x\<rceil> \<le> 2 ^ floorlog 2 m"
    using mi by linarith
  then have "1 / x \<le> 2 ^ floorlog 2 m"
    by (simp add: ceiling_le_iff)
  then have "1 / 2 ^ floorlog 2 m \<le> x"
    using assms by (simp add: field_simps)
  moreover have "pow2 (ilog2 x) = 1 / 2 ^ floorlog 2 m"
    using False by (simp add: ilog2_def pow2_def m_def)
  ultimately show ?thesis
    by simp
qed

lemma fl_error: "\<bar>fl p x - x\<bar> \<le> \<bar>x\<bar> / 2 ^ p"
proof (cases "x = 0")
  case True
  then show ?thesis by (simp add: fl_def)
next
  case False
  define u where "u = pow2 (ilog2 \<bar>x\<bar> - int p + 1)"
  have u: "0 < u"
    by (simp add: u_def pow2_pos)
  have "u = pow2 (ilog2 \<bar>x\<bar>) * 2 / 2 ^ p"
    by (simp add: u_def pow2_powi power_int_diff power_int_add)
  then have h: "u / 2 \<le> \<bar>x\<bar> / 2 ^ p"
    using ilog2_lower [of "\<bar>x\<bar>"] False by (simp add: divide_right_mono)
  have "fl p x = of_int (rne (x / u)) * u"
    using False by (simp add: fl_def u_def Let_def)
  then have "fl p x - x = (of_int (rne (x / u)) - x / u) * u"
    using u by (simp add: algebra_simps)
  then have "\<bar>fl p x - x\<bar> = \<bar>of_int (rne (x / u)) - x / u\<bar> * u"
    using u by (simp add: abs_mult)
  also have "\<dots> \<le> (1 / 2) * u"
    using rne_error [of "x / u"] u by (intro mult_right_mono) simp_all
  finally have "\<bar>fl p x - x\<bar> \<le> u / 2"
    by simp
  then show ?thesis
    using h by (rule order_trans)
qed

lemma ilog2_upper:
  assumes "0 < x"
  shows "x < pow2 (ilog2 x + 1)"
proof (cases "1 \<le> x")
  case True
  define n where "n = nat \<lfloor>x\<rfloor>"
  have n: "0 < n" "x < of_nat n + 1"
    using True by (simp_all add: n_def) linarith
  have "n < 2 ^ floorlog 2 n"
    using floorlog_bounds [of n 2] n by simp
  then have "n + 1 \<le> 2 ^ floorlog 2 n"
    by simp
  then have "(of_nat (n + 1) :: rat) \<le> of_nat (2 ^ floorlog 2 n)"
    by (simp only: of_nat_le_iff)
  moreover have "(of_nat (2 ^ floorlog 2 n) :: rat) = 2 ^ floorlog 2 n"
    by simp
  moreover have "(of_nat (n + 1) :: rat) = of_nat n + 1"
    by simp
  ultimately have "x < 2 ^ floorlog 2 n"
    using n(2) by (simp only: order_less_le_trans)
  then show ?thesis
    using True by (simp add: ilog2_def pow2_def n_def)
next
  case False
  define m where "m = nat (\<lceil>1 / x\<rceil> - 1)"
  define L where "L = floorlog 2 m"
  have "1 < 1 / x"
    using False assms by simp
  then have c: "2 \<le> \<lceil>1 / x\<rceil>"
    by linarith
  then have m: "0 < m" "of_nat m < 1 / x"
    by (simp_all add: m_def) linarith
  have L: "0 < L"
    using m by (simp add: L_def floorlog_def)
  have "2 ^ (L - 1) \<le> m"
    using floorlog_bounds [of m 2] m by (simp add: L_def)
  then have "(of_nat (2 ^ (L - 1)) :: rat) \<le> of_nat m"
    by (simp only: of_nat_le_iff)
  moreover have "(of_nat (2 ^ (L - 1)) :: rat) = 2 ^ (L - 1)"
    by simp
  ultimately have "2 ^ (L - 1) < 1 / x"
    using m(2) by (simp only: order_le_less_trans)
  then have "x < 1 / 2 ^ (L - 1)"
    using assms by (simp add: field_simps)
  moreover have "pow2 (ilog2 x + 1) = 1 / 2 ^ (L - 1)"
    using False L by (simp add: ilog2_def pow2_def m_def L_def nat_diff_distrib)
  ultimately show ?thesis
    by simp
qed

lemma pow2_less_iff: "pow2 a < pow2 b \<longleftrightarrow> a < b"
proof
  assume "pow2 a < pow2 b"
  show "a < b"
  proof (rule ccontr)
    assume "\<not> a < b"
    then have "pow2 b \<le> pow2 a"
      unfolding pow2_powi by (intro power_int_increasing) simp_all
    with \<open>pow2 a < pow2 b\<close> show False
      by simp
  qed
next
  assume "a < b"
  then show "pow2 a < pow2 b"
    unfolding pow2_powi by (intro power_int_strict_increasing) simp_all
qed

lemma floor_rat_numeral:
  "\<lfloor>numeral a / numeral b :: rat\<rfloor> = numeral a div numeral b"
  "\<lfloor>- (numeral a / numeral b) :: rat\<rfloor> = - numeral a div numeral b"
  "\<lceil>numeral a / numeral b :: rat\<rceil> = - (- numeral a div numeral b)"
  "\<lceil>- (numeral a / numeral b) :: rat\<rceil> = - (numeral a div numeral b)"
  using floor_divide_of_int_eq [of "numeral a" "numeral b", where ?'a = rat]
    floor_divide_of_int_eq [of "- numeral a" "numeral b", where ?'a = rat]
    ceiling_divide_eq_div [of "numeral a" "numeral b", where ?'a = rat]
    ceiling_divide_eq_div [of "- numeral a" "numeral b", where ?'a = rat]
  by simp_all

lemmas fl_eval_simps = pow2_def rne_def Let_def floor_rat_numeral


lemma ilog2_eqI:
  assumes "pow2 e \<le> x" and "x < pow2 (e + 1)"
  shows "ilog2 x = e"
proof -
  have x: "0 < x"
    using assms(1) pow2_pos [of e] by linarith
  have "pow2 (ilog2 x) < pow2 (e + 1)"
    using ilog2_lower [OF x] assms(2) by linarith
  moreover have "pow2 e < pow2 (ilog2 x + 1)"
    using ilog2_upper [OF x] assms(1) by linarith
  ultimately show ?thesis
    by (simp add: pow2_less_iff)
qed

lemma fl_eval:
  assumes "pow2 e \<le> \<bar>x\<bar>" and "\<bar>x\<bar> < pow2 (e + 1)"
  shows "fl p x = of_int (rne (x / pow2 (e - int p + 1))) * pow2 (e - int p + 1)"
proof -
  have "x \<noteq> 0"
    using assms(1) pow2_pos [of e] by auto
  then show ?thesis
    using ilog2_eqI [OF assms] by (simp add: fl_def Let_def)
qed

lemma fl_0: "fl p 0 = 0"
  by (simp add: fl_def)

lemma fl_bounds:
  assumes "\<bar>x\<bar> \<le> m"
  shows "x - m / 2 ^ p \<le> fl p x" and "fl p x \<le> x + m / 2 ^ p"
proof -
  have "\<bar>x\<bar> / 2 ^ p \<le> m / 2 ^ p"
    using assms by (simp add: divide_right_mono)
  then have "\<bar>fl p x - x\<bar> \<le> m / 2 ^ p"
    using fl_error [of p x] by (rule order_trans [rotated])
  then show "x - m / 2 ^ p \<le> fl p x" and "fl p x \<le> x + m / 2 ^ p"
    by linarith+
qed

lemma Frequency_of_error:
  "\<bar>Frequency_of r - (156863 / 1000000 * of_nat (unat r) + 25)\<bar> \<le> 1 / 2 ^ 17"
proof -
  define n :: rat where "n = of_nat (unat r)"
  define c where "c = fl 53 (156863 / 1000000)"
  define a where "a = fl 53 (c * n)"
  define b where "b = fl 53 (a + 25)"
  have f: "Frequency_of r = fl 24 b"
    by (simp add: Frequency_of_def b_def a_def c_def n_def)
  have "unat r \<le> 255"
    using unsigned_less [of r, where ?'a = nat] by simp
  then have "(of_nat (unat r) :: rat) \<le> of_nat 255"
    by (simp only: of_nat_le_iff)
  then have n: "0 \<le> n" "n \<le> 255"
    unfolding n_def by (simp_all del: of_nat_unat)
  have c: "156863 / 1000000 - 1 / 2 ^ 53 \<le> c" "c \<le> 156863 / 1000000 + 1 / 2 ^ 53"
    using fl_bounds [of "156863 / 1000000" 1 53] unfolding c_def by simp_all
  then have c01: "0 \<le> c" "c \<le> 1 / 4"
    by simp_all
  have cn: "0 \<le> c * n" "c * n \<le> 64"
    using c01 n mult_mono [of c "1 / 4" n 255] by simp_all
  have "(156863 / 1000000 - 1 / 2 ^ 53) * n \<le> c * n" "c * n \<le> (156863 / 1000000 + 1 / 2 ^ 53) * n"
    using c n by (simp_all only: mult_right_mono)
  then have e1: "156863 / 1000000 * n - 1 / 2 ^ 45 \<le> c * n" "c * n \<le> 156863 / 1000000 * n + 1 / 2 ^ 45"
    using n by (simp_all add: algebra_simps)
  have e2: "c * n - 64 / 2 ^ 53 \<le> a" "a \<le> c * n + 64 / 2 ^ 53"
    using fl_bounds [of "c * n" 64 53] cn unfolding a_def by simp_all
  then have a: "24 \<le> a + 25" "a + 25 \<le> 128"
    using cn by simp_all
  have e3: "a + 25 - 128 / 2 ^ 53 \<le> b" "b \<le> a + 25 + 128 / 2 ^ 53"
    using fl_bounds [of "a + 25" 128 53] a unfolding b_def by simp_all
  have "156863 / 1000000 * n + 25 \<le> 66"
    using n by simp
  then have b: "23 \<le> b" "b \<le> 67"
    using e1 e2 e3 a by simp_all
  have e4: "b - 67 / 2 ^ 24 \<le> fl 24 b" "fl 24 b \<le> b + 67 / 2 ^ 24"
    using fl_bounds [of b 67 24] b by simp_all
  show ?thesis
    using e1 e2 e3 e4 unfolding f n_def [symmetric] abs_le_iff by simp
qed

text \<open>The values the sketch computes at some concrete inputs.\<close>

lemma double_1240909: "fl 53 (1240909 / 1000000) = 5588557310000695 / 4503599627370496"
  by (subst fl_eval [of 0]) (simp_all add: fl_eval_simps)

lemma DisplayMultiplier_value: "DisplayMultiplier = 10409499 / 8388608"
  unfolding DisplayMultiplier_def double_1240909
  by (subst fl_eval [of 0]) (simp_all add: fl_eval_simps)

lemma DisplayOutput_half: "c_int (fl 24 (1 / 2 * DisplayMultiplier)) = 0"
  unfolding DisplayMultiplier_value
  by (subst fl_eval [of "- 1"]) (simp_all add: fl_eval_simps c_int_def)

lemma product_4000: "fl 24 (4000 * DisplayMultiplier) = 5082763 / 1024"
  unfolding DisplayMultiplier_value
  by (subst fl_eval [of 12]) (simp_all add: fl_eval_simps)

lemma DisplayOutput_4000: "c_int (fl 24 (4000 * DisplayMultiplier)) = 4963"
  unfolding DisplayMultiplier_value
  by (subst fl_eval [of 12]) (simp_all add: fl_eval_simps c_int_def)

lemma DisplayOutput_minus_1: "c_int (fl 24 (- 1 * DisplayMultiplier)) = - 1"
  unfolding DisplayMultiplier_value
  by (subst fl_eval [of 0]) (simp_all add: fl_eval_simps c_int_def)

lemma double_117641: "fl 53 (117641 / 100000) = 5298079637634925 / 4503599627370496"
  by (subst fl_eval [of 0]) (simp_all add: fl_eval_simps)

lemma power_arg_2: "fl 24 (fl 53 (fl 53 (117641 / 100000) * 2)) = 4934221 / 2097152"
  unfolding double_117641
  by (subst fl_eval [of 1], simp add: fl_eval_simps, simp add: fl_eval_simps)+
     (simp add: fl_eval_simps)

lemma DisplayOutput_dial_2: "c_int (fl 24 (4934221 / 2097152 * DisplayMultiplier)) = 2"
  unfolding DisplayMultiplier_value
  by (subst fl_eval [of 1]) (simp_all add: fl_eval_simps c_int_def)

lemma round_products: "round (4934221 / 2097152 * DisplayMultiplier) = 3" "round (1 / 2 * DisplayMultiplier) = 1"
  unfolding DisplayMultiplier_value by (simp_all add: round_def floor_rat_numeral)

lemma fl_25: "fl 24 (fl 53 25) = 25"
  by (subst fl_eval [of 4], simp add: fl_eval_simps, simp add: fl_eval_simps)+
     (simp add: fl_eval_simps)

lemma Frequency_of_0: "Frequency_of 0 = 25"
  by (simp add: Frequency_of_def fl_0 fl_25)

lemma Frequency_of_range: "24 \<le> Frequency_of r" "Frequency_of r \<le> 66"
proof -
  have "unat r \<le> 255"
    using unsigned_less [of r, where ?'a = nat] by simp
  then have "(of_nat (unat r) :: rat) \<le> of_nat 255"
    by (simp only: of_nat_le_iff)
  then have "0 \<le> (of_nat (unat r) :: rat)" "(of_nat (unat r) :: rat) \<le> 255"
    by (simp_all del: of_nat_unat)
  then show "24 \<le> Frequency_of r" "Frequency_of r \<le> 66"
    using Frequency_of_error [of r] unfolding abs_le_iff by (simp_all del: of_nat_unat)
qed

lemma half_period_error:
  "\<bar>fl 24 (500 / Frequency_of r) - 500 / Frequency_of r\<bar> \<le> 1 / 2 ^ 19"
proof -
  have "0 \<le> 500 / Frequency_of r" "500 / Frequency_of r \<le> 21"
    using Frequency_of_range [of r] by (simp_all add: field_simps)
  then have "\<bar>500 / Frequency_of r\<bar> \<le> 21"
    by simp
  then show ?thesis
    using fl_bounds [of "500 / Frequency_of r" 21 24] unfolding abs_le_iff by simp
qed

lemma display_argument_error:
  "\<bar>fl 24 (Frequency_of r * 10) - Frequency_of r * 10\<bar> \<le> 1 / 2 ^ 14"
proof -
  have "\<bar>Frequency_of r * 10\<bar> \<le> 660"
    using Frequency_of_range [of r] by simp
  then show ?thesis
    using fl_bounds [of "Frequency_of r * 10" 660 24] unfolding abs_le_iff by simp
qed

subsection \<open>The pulse rate\<close>

text \<open>
  C6. For every 8-bit dial reading \<open>r\<close>, \<open>SetPulseRate\<close> computes the frequency
  \<open>0.156863 * r + 25\<close> (in floating point: within \<open>2 ^ - 17\<close> of the exact value;
  exactly 25 for the reading 0 and within \<open>0.0001\<close> of 65 for the reading 255), stores
  500 divided by this frequency, rounded to \<open>float\<close>, as the half-period in
  \<open>LaserPulsePeriod\<close>, restarts the pulse timer with the pulse generator at that
  half-period, and passes the frequency times 10, rounded to \<open>float\<close>, to
  \<open>DisplayOutput\<close>.
\<close>

theorem SetPulseRate_frequency_period_display:
  "SetPulseRate inp =
     [Set_LaserPulsePeriod (fl 24 (500 / Frequency_of (Dial inp))),
      Begin_LaserPulseTimer CB_LaserPulseGenerator (fl 24 (500 / Frequency_of (Dial inp)))]
     @ DisplayOutput (fl 24 (Frequency_of (Dial inp) * 10))
   \<and> \<bar>Frequency_of (Dial inp) - (156863 / 1000000 * of_nat (unat (Dial inp)) + 25)\<bar>
       \<le> 1 / 2 ^ 17
   \<and> \<bar>fl 24 (500 / Frequency_of (Dial inp)) - 500 / Frequency_of (Dial inp)\<bar> \<le> 1 / 2 ^ 19
   \<and> \<bar>fl 24 (Frequency_of (Dial inp) * 10) - Frequency_of (Dial inp) * 10\<bar> \<le> 1 / 2 ^ 14
   \<and> LaserPulsePeriod (run (SetPulseRate inp) s) = fl 24 (500 / Frequency_of (Dial inp))
   \<and> LaserPulseTimer (run (SetPulseRate inp) s) =
       Some (CB_LaserPulseGenerator, fl 24 (500 / Frequency_of (Dial inp)))
   \<and> Frequency_of 0 = 25
   \<and> \<bar>Frequency_of 255 - 65\<bar> \<le> 1 / 10000"
proof -
  have "\<bar>Frequency_of 255 - 65\<bar> \<le> 1 / 10000"
    using Frequency_of_error [of 255] unfolding abs_le_iff by simp
  moreover have "LaserPulsePeriod (run (SetPulseRate inp) s) = fl 24 (500 / Frequency_of (Dial inp))"
    "LaserPulseTimer (run (SetPulseRate inp) s) =
       Some (CB_LaserPulseGenerator, fl 24 (500 / Frequency_of (Dial inp)))"
    by (simp_all add: SetPulseRate_def DisplayOutput_def Let_def)
  moreover have "SetPulseRate inp =
     [Set_LaserPulsePeriod (fl 24 (500 / Frequency_of (Dial inp))),
      Begin_LaserPulseTimer CB_LaserPulseGenerator (fl 24 (500 / Frequency_of (Dial inp)))]
     @ DisplayOutput (fl 24 (Frequency_of (Dial inp) * 10))"
    by (simp add: SetPulseRate_def Let_def)
  ultimately show ?thesis
    using Frequency_of_error [of "Dial inp"] half_period_error [of "Dial inp"]
      display_argument_error [of "Dial inp"] Frequency_of_0
    by (simp only: simp_thms)
qed

subsection \<open>The display output\<close>

lemma c_int_truncates:
  "\<bar>of_int (c_int y) :: rat\<bar> \<le> \<bar>y\<bar>" "\<bar>y\<bar> < \<bar>of_int (c_int y) :: rat\<bar> + 1"
  "0 \<le> of_int (c_int y) * y"
proof -
  show "\<bar>of_int (c_int y) :: rat\<bar> \<le> \<bar>y\<bar>" "\<bar>y\<bar> < \<bar>of_int (c_int y) :: rat\<bar> + 1"
    unfolding c_int_def by (cases "0 \<le> y"; simp; linarith)+
  show "0 \<le> of_int (c_int y) * y"
    unfolding c_int_def by (cases "0 \<le> y") (simp_all add: mult_nonpos_nonpos)
qed

text \<open>
  C8 as stated fails: \<open>DisplayOutput\<close> does not round to nearest. For the value 0.5 it
  writes 0, and the product rounds to 1; for the value that \<open>SetPowerLevel\<close> passes at
  the dial reading 2 it writes 2, and the product rounds to 3.
\<close>

theorem DisplayOutput_round_counterexample:
  "DisplayOutput (1 / 2) = [AnalogWrite DisplayOutputPin 0]
   \<and> round (1 / 2 * DisplayMultiplier) = 1
   \<and> DisplayOutput (fl 24 (fl 53 (fl 53 (117641 / 100000) * 2)))
       = [AnalogWrite DisplayOutputPin 2]
   \<and> round (fl 24 (fl 53 (fl 53 (117641 / 100000) * 2)) * DisplayMultiplier) = 3"
  unfolding DisplayOutput_def Let_def power_arg_2 DisplayOutput_half DisplayOutput_dial_2
    round_products
  by simp

text \<open>
  C8, amended. For every input value \<open>x\<close> whose \<open>float\<close> product with
  \<open>DisplayMultiplier\<close> lies in the range where the cast \<open>(int)\<close> is defined (its integer
  part fits the 32-bit \<open>int\<close>), \<open>DisplayOutput x\<close> writes to the analog display output
  that product with its fractional part discarded (truncation towards zero: the integer
  written is no larger in magnitude than the product, less than 1 away from it, of the
  same sign, and a 32-bit \<open>int\<close>), and it does not clamp the result: 4000 gives 4963,
  beyond the 12-bit range of the output, and \<open>- 1\<close> gives \<open>- 1\<close>.
\<close>

theorem DisplayOutput_truncates_unclamped:
  assumes "- (2 ^ 31) - 1 < fl 24 (x * DisplayMultiplier)"
    and "fl 24 (x * DisplayMultiplier) < 2 ^ 31"
  shows "DisplayOutput x = [AnalogWrite DisplayOutputPin (c_int (fl 24 (x * DisplayMultiplier)))]
   \<and> \<bar>of_int (c_int (fl 24 (x * DisplayMultiplier))) :: rat\<bar> \<le> \<bar>fl 24 (x * DisplayMultiplier)\<bar>
   \<and> \<bar>fl 24 (x * DisplayMultiplier)\<bar> < \<bar>of_int (c_int (fl 24 (x * DisplayMultiplier))) :: rat\<bar> + 1
   \<and> 0 \<le> of_int (c_int (fl 24 (x * DisplayMultiplier))) * fl 24 (x * DisplayMultiplier)
   \<and> - (2 ^ 31) \<le> c_int (fl 24 (x * DisplayMultiplier))
   \<and> c_int (fl 24 (x * DisplayMultiplier)) < 2 ^ 31
   \<and> DisplayOutput 4000 = [AnalogWrite DisplayOutputPin 4963]
   \<and> DisplayOutput (- 1) = [AnalogWrite DisplayOutputPin (- 1)]"
proof -
  have "DisplayOutput 4000 = [AnalogWrite DisplayOutputPin 4963]"
    "DisplayOutput (- 1) = [AnalogWrite DisplayOutputPin (- 1)]"
    unfolding DisplayOutput_def Let_def DisplayOutput_4000 DisplayOutput_minus_1
    by simp_all
  moreover have "- (2 ^ 31) \<le> c_int (fl 24 (x * DisplayMultiplier))"
    "c_int (fl 24 (x * DisplayMultiplier)) < 2 ^ 31"
    using assms unfolding c_int_def by (simp_all; linarith)+
  ultimately show ?thesis
    using c_int_truncates [of "fl 24 (x * DisplayMultiplier)"]
    by (simp add: DisplayOutput_def Let_def)
qed

theorem DisplayOutput_truncates_unclamped_witness:
  "- (2 ^ 31) - 1 < fl 24 (4000 * DisplayMultiplier)
   \<and> fl 24 (4000 * DisplayMultiplier) < 2 ^ 31
   \<and> DisplayOutput 4000 = [AnalogWrite DisplayOutputPin 4963]
   \<and> (4095 :: int) < 4963"
  using DisplayOutput_truncates_unclamped [of 4000]
  by (simp add: product_4000 c_int_def floor_rat_numeral)

text \<open>
  The sketch itself only calls \<open>DisplayOutput\<close> with values for which the cast is defined:
  the frequency times 10 in \<open>SetPulseRate\<close>, the scaled power level in \<open>SetPowerLevel\<close>
  and 0 in \<open>AlarmActions\<close>.
\<close>

lemma SetPulseRate_cast_defined:
  "- (2 ^ 31) - 1 < fl 24 (fl 24 (Frequency_of r * 10) * DisplayMultiplier)"
  "fl 24 (fl 24 (Frequency_of r * 10) * DisplayMultiplier) < 2 ^ 31"
proof -
  define g where "g = fl 24 (Frequency_of r * 10)"
  have "\<bar>Frequency_of r * 10\<bar> \<le> 660"
    using Frequency_of_range [of r] by simp
  then have g: "239 \<le> g" "g \<le> 661"
    using fl_bounds [of "Frequency_of r * 10" 660 24] Frequency_of_range [of r]
    unfolding g_def by simp_all
  then have "\<bar>g * DisplayMultiplier\<bar> \<le> 1000"
    unfolding DisplayMultiplier_value by simp
  then show "- (2 ^ 31) - 1 < fl 24 (fl 24 (Frequency_of r * 10) * DisplayMultiplier)"
    "fl 24 (fl 24 (Frequency_of r * 10) * DisplayMultiplier) < 2 ^ 31"
    using fl_bounds [of "g * DisplayMultiplier" 1000 24] g
    unfolding g_def [symmetric] DisplayMultiplier_value by simp_all
qed

lemma SetPowerLevel_cast_defined:
  fixes v :: "8 word"
  shows "- (2 ^ 31) - 1
           < fl 24 (fl 24 (fl 53 (fl 53 (117641 / 100000) * of_nat (unat v))) * DisplayMultiplier)"
    and "fl 24 (fl 24 (fl 53 (fl 53 (117641 / 100000) * of_nat (unat v))) * DisplayMultiplier)
           < 2 ^ 31"
proof -
  define n :: rat where "n = of_nat (unat v)"
  define a where "a = fl 53 (5298079637634925 / 4503599627370496 * n)"
  define g where "g = fl 24 a"
  have "unat v \<le> 255"
    using unsigned_less [of v, where ?'a = nat] by simp
  then have "(of_nat (unat v) :: rat) \<le> of_nat 255"
    by (simp only: of_nat_le_iff)
  then have n: "0 \<le> n" "n \<le> 255"
    unfolding n_def by (simp_all del: of_nat_unat)
  then have "\<bar>5298079637634925 / 4503599627370496 * n\<bar> \<le> 512"
    by simp
  then have a: "- 1 \<le> a" "a \<le> 513"
    using fl_bounds [of "5298079637634925 / 4503599627370496 * n" 512 53] n
    unfolding a_def by simp_all
  then have "\<bar>a\<bar> \<le> 513"
    by simp
  then have g: "- 2 \<le> g" "g \<le> 514"
    using fl_bounds [of a 513 24] a unfolding g_def by simp_all
  then have "\<bar>g * DisplayMultiplier\<bar> \<le> 1000"
    unfolding DisplayMultiplier_value by simp
  then have "- (2 ^ 31) - 1 < fl 24 (g * DisplayMultiplier)"
    "fl 24 (g * DisplayMultiplier) < 2 ^ 31"
    using fl_bounds [of "g * DisplayMultiplier" 1000 24] g
    unfolding DisplayMultiplier_value by simp_all
  then show "- (2 ^ 31) - 1
           < fl 24 (fl 24 (fl 53 (fl 53 (117641 / 100000) * of_nat (unat v))) * DisplayMultiplier)"
    and "fl 24 (fl 24 (fl 53 (fl 53 (117641 / 100000) * of_nat (unat v))) * DisplayMultiplier)
           < 2 ^ 31"
    unfolding g_def a_def n_def double_117641 by (simp_all del: of_nat_unat)
qed

subsection \<open>Alarm actions\<close>

lemma DisplayOutput_0: "DisplayOutput 0 = [AnalogWrite DisplayOutputPin 0]"
  by (simp add: DisplayOutput_def fl_0 c_int_def)

text \<open>
  C10. For every mode \<open>m\<close>, running \<open>AlarmActions m\<close> a second time right after the
  first leaves the state the first run produced, up to the millisecond the second
  \<open>delay(1)\<close> takes: the same \<open>AlarmState\<close> label for the mode, the display output zero,
  the trigger gate clear, ON-enable and MO-enable high (de-asserted), every other pin
  unchanged, and the alarm flasher timer configured with \<open>AlarmLEDFlasher\<close> at the period
  of 1000000 microseconds.
\<close>

theorem AlarmActions_idempotent:
  "run (AlarmActions m) (run (AlarmActions m) s) = (run (AlarmActions m) s)\<lparr>millis := millis s + 2\<rparr>
   \<and> AlarmState (run (AlarmActions m) s) =
       (if m = 3 then ''Temperature'' else if m = 4 then ''High Reflection''
        else if m = 5 then ''MO'' else ''Reserved Mode'')
   \<and> analog (run (AlarmActions m) s) DisplayOutputPin = 0
   \<and> EnableLaserTrigger (run (AlarmActions m) s) = 0
   \<and> pins (run (AlarmActions m) s) LaserONSignalPin = HIGH
   \<and> pins (run (AlarmActions m) s) LaserMOSignalPin = HIGH
   \<and> AlarmLEDFlashTimer (run (AlarmActions m) s) = Some (CB_AlarmLEDFlasher, 1000000)"
  by (simp add: AlarmActions_def DisplayOutput_0)

subsection \<open>Shutdown order\<close>

lemma ModeRunFunction_shutdown:
  assumes "m \<noteq> 0"
  shows "filter (laser_enable_op \<circ> snd) (stamp t (ModeRunFunction inp m)) =
           [(t, Set_EnableLaserTrigger 0), (t, DigitalWrite LaserONSignalPin HIGH),
            (t + 1, DigitalWrite LaserMOSignalPin HIGH)]"
  using assms
  by (simp add: ModeRunFunction_def SetPowerLevel_ops SetPulseRate_def AlarmActions_def
      DisplayOutput_def Let_def)


lemma stamp_append_no_delay:
  assumes "\<forall>x \<in> set xs. \<forall>n. x \<noteq> Delay n"
  shows "stamp t (xs @ ys) = stamp t xs @ stamp t ys"
  using assms
proof (induction xs)
  case Nil
  then show ?case by simp
next
  case (Cons x xs)
  then show ?case by (cases x) simp_all
qed

text \<open>
  C5. In every pass of \<open>loop\<close> whose resulting mode is not 0 (IDLE, OFF set rate, or an
  alarm mode), the operations of the pass that bear on the laser enable signals are
  exactly these, in this order: the trigger gate is cleared, ON-enable is driven high
  (de-asserted), and, one millisecond of \<open>delay\<close> later, MO-enable is driven high
  (de-asserted).
\<close>

theorem shutdown_order:
  assumes "snd (GetModeFunction inp (OperatingMode s)) \<noteq> 0"
  shows "filter (laser_enable_op \<circ> snd) (stamp t (loop inp s)) =
           [(t, Set_EnableLaserTrigger 0), (t, DigitalWrite LaserONSignalPin HIGH),
            (t + 1, DigitalWrite LaserMOSignalPin HIGH)]"
proof -
  obtain ops m where g: "GetModeFunction inp (OperatingMode s) = (ops, m)"
    by (cases "GetModeFunction inp (OperatingMode s)")
  then have m: "m \<noteq> 0"
    using assms by simp
  have ops: "ops = []"
    using g m by (auto simp: GetModeFunction_def Let_def split: if_splits)
  define pre where "pre =
    (if serialMetro_check inp then
        SerialOutputFunction s (OperatingMode s)
        @ [if pins s InternalLEDPin = HIGH then DigitalWrite InternalLEDPin LOW
           else DigitalWrite InternalLEDPin HIGH]
      else []) @ [Set_OperatingMode m]"
  have l: "loop inp s = pre @ ModeRunFunction inp m"
    by (simp add: loop_def g ops pre_def)
  have nd: "\<forall>x \<in> set pre. \<forall>n. x \<noteq> Delay n"
    by (auto simp: pre_def SerialOutputFunction_def)
  have "filter (laser_enable_op \<circ> snd) (stamp t pre) = []"
    by (simp add: pre_def SerialOutputFunction_def)
  then show ?thesis
    using ModeRunFunction_shutdown [OF m, of t inp]
    by (simp add: l stamp_append_no_delay [OF nd])
qed

theorem shutdown_order_witness:
  "snd (GetModeFunction \<lparr>AlarmLSB = HIGH, AlarmMSB = HIGH, ActionBounce1 = LOW,
       ActionBounce2 = HIGH, Dial = 0, serialMetro_check = True\<rparr>
       (OperatingMode (run setup_ops (boot (\<lambda>_. LOW) (\<lambda>_. 0))))) \<noteq> 0
   \<and> filter (laser_enable_op \<circ> snd)
        (stamp 0 (loop \<lparr>AlarmLSB = HIGH, AlarmMSB = HIGH, ActionBounce1 = LOW,
           ActionBounce2 = HIGH, Dial = 0, serialMetro_check = True\<rparr>
           (run setup_ops (boot (\<lambda>_. LOW) (\<lambda>_. 0))))) =
      [(0, Set_EnableLaserTrigger 0), (0, DigitalWrite LaserONSignalPin HIGH),
       (1, DigitalWrite LaserMOSignalPin HIGH)]"
  using shutdown_order [of "\<lparr>AlarmLSB = HIGH, AlarmMSB = HIGH, ActionBounce1 = LOW,
       ActionBounce2 = HIGH, Dial = 0, serialMetro_check = True\<rparr>"
      "run setup_ops (boot (\<lambda>_. LOW) (\<lambda>_. 0))" 0]
  by (simp add: GetModeFunction_def)

subsection \<open>The trigger gate\<close>

lemma callback_keeps_gate:
  "EnableLaserTrigger (run (callback_ops f s) s) = EnableLaserTrigger s"
  by (cases f) (simp_all add: LaserPulseGenerator_def AlarmLEDFlasher_def)

lemma loop_gate:
  assumes "Set_EnableLaserTrigger g \<in> set (loop inp s)"
  shows "g = 0"
  using assms
  by (auto simp: loop_def GetModeFunction_def ModeRunFunction_def SetPowerLevel_ops
      SetPulseRate_def AlarmActions_def DisplayOutput_def SerialOutputFunction_def Let_def
      split: if_splits)

lemma reach_gate:
  assumes "reach s ops"
  shows "EnableLaserTrigger s = 0 \<and> (\<forall>g. Set_EnableLaserTrigger g \<in> set ops \<longrightarrow> g = 0)"
  using assms
proof (induction rule: reach.induct)
  case (start p a)
  then show ?case by (simp add: setup_ops_def boot_def)
next
  case (step s x ops)
  then show ?case by (cases x) auto
next
  case (pass s inp)
  then show ?case by (auto dest: loop_gate)
next
  case (pulse_tick s ops f t)
  then show ?case by (simp add: callback_keeps_gate)
next
  case (flash_tick s ops f t)
  then show ?case by (simp add: callback_keeps_gate)
qed

text \<open>
  C2. In every reachable configuration the trigger gate \<open>EnableLaserTrigger\<close> is 0 (the
  sketch only ever assigns 0 to it), and so an invocation of \<open>LaserPulseGenerator\<close> in
  that state drives the laser ON-enable output high (de-asserted).
\<close>

theorem trigger_gate_always_clear:
  assumes "reach s ops"
  shows "EnableLaserTrigger s = 0
         \<and> pins (run (LaserPulseGenerator s) s) LaserONSignalPin = HIGH"
  using reach_gate [OF assms] by (simp add: LaserPulseGenerator_def)

theorem trigger_gate_always_clear_witness:
  "reach (run setup_ops (boot (\<lambda>_. LOW) (\<lambda>_. 0))) []
   \<and> EnableLaserTrigger (run setup_ops (boot (\<lambda>_. LOW) (\<lambda>_. 0))) = 0
   \<and> pins (run (LaserPulseGenerator (run setup_ops (boot (\<lambda>_. LOW) (\<lambda>_. 0))))
         (run setup_ops (boot (\<lambda>_. LOW) (\<lambda>_. 0)))) LaserONSignalPin = HIGH"
  using trigger_gate_always_clear [OF reach.start [of "\<lambda>_. LOW" "\<lambda>_. 0"]]
    reach.start [of "\<lambda>_. LOW" "\<lambda>_. 0"]
  by simp

subsection \<open>The start-up sequence\<close>

text \<open>
  The comment in \<open>GetModeFunction\<close> quotes the laser's manual: the MO signal must be
  switched on 5 ms before the laser on/off signal, or the equipment can be damaged.
  When the previous mode is 1 or 2 the pass into mode 0 does so; from any other previous
  mode \<open>GetModeFunction\<close> skips the sequence and \<open>ModeRunFunction\<close> asserts the two
  signals back to back.
\<close>

lemma startup_sequence_from_idle_or_set_rate:
  assumes "AlarmLSB inp = LOW" and "AlarmMSB inp = HIGH" and "ActionBounce1 inp = LOW"
    and "OperatingMode s = 1 \<or> OperatingMode s = 2"
  shows "filter (laser_enable_op \<circ> snd) (stamp t (loop inp s)) =
           [(t, DigitalWrite LaserMOSignalPin LOW), (t + 5, DigitalWrite LaserONSignalPin LOW),
            (t + 5, DigitalWrite LaserMOSignalPin LOW),
            (t + 5, DigitalWrite LaserONSignalPin LOW)]"
  using assms
  by (auto simp: loop_def GetModeFunction_def ModeRunFunction_def SetPowerLevel_ops
      DisplayOutput_def SerialOutputFunction_def Let_def)

lemma startup_sequence_skipped:
  assumes "AlarmLSB inp = LOW" and "AlarmMSB inp = HIGH" and "ActionBounce1 inp = LOW"
    and "OperatingMode s \<noteq> 1" and "OperatingMode s \<noteq> 2"
  shows "filter (laser_enable_op \<circ> snd) (stamp t (loop inp s)) =
           [(t, DigitalWrite LaserMOSignalPin LOW), (t, DigitalWrite LaserONSignalPin LOW)]"
  using assms
  by (auto simp: loop_def GetModeFunction_def ModeRunFunction_def SetPowerLevel_ops
      DisplayOutput_def SerialOutputFunction_def Let_def)

lemma after_setup:
  "OperatingMode (run setup_ops (boot p a)) = 7"
  "pins (run setup_ops (boot p a)) LaserMOSignalPin = HIGH"
  "pins (run setup_ops (boot p a)) LaserONSignalPin = HIGH"
  by (simp_all add: setup_ops_def boot_def)

lemma after_alarm_pass:
  assumes "AlarmLSB inp = HIGH" and "AlarmMSB inp = HIGH"
  shows "OperatingMode (run (loop inp s) s) = 5"
    and "pins (run (loop inp s) s) LaserMOSignalPin = HIGH"
    and "pins (run (loop inp s) s) LaserONSignalPin = HIGH"
  using assms
  by (simp_all add: loop_def GetModeFunction_def ModeRunFunction_def AlarmActions_def
      DisplayOutput_0 SerialOutputFunction_def)

text \<open>
  C1 fails on the code. In the first pass after \<open>setup\<close> (previous mode 7, MO-enable and
  ON-enable both high), with no alarm and switch 1 low, the pass is reachable and drives
  MO-enable low and ON-enable low at the same time stamp, with no \<open>delay\<close> between
  them. The same happens in the pass that follows an alarm pass (previous mode 5, both
  signals high) once the alarm has cleared with switch 1 still low.
\<close>

theorem startup_sequence_skipped_after_boot_and_alarm:
  "OperatingMode (run setup_ops (boot p a)) = 7
   \<and> pins (run setup_ops (boot p a)) LaserMOSignalPin = HIGH
   \<and> pins (run setup_ops (boot p a)) LaserONSignalPin = HIGH
   \<and> reach (run setup_ops (boot p a))
        (loop \<lparr>AlarmLSB = LOW, AlarmMSB = HIGH, ActionBounce1 = LOW,
           ActionBounce2 = HIGH, Dial = d, serialMetro_check = False\<rparr>
           (run setup_ops (boot p a)))
   \<and> filter (laser_enable_op \<circ> snd)
        (stamp t (loop \<lparr>AlarmLSB = LOW, AlarmMSB = HIGH, ActionBounce1 = LOW,
           ActionBounce2 = HIGH, Dial = d, serialMetro_check = False\<rparr>
           (run setup_ops (boot p a)))) =
      [(t, DigitalWrite LaserMOSignalPin LOW), (t, DigitalWrite LaserONSignalPin LOW)]
   \<and> OperatingMode (run (loop \<lparr>AlarmLSB = HIGH, AlarmMSB = HIGH, ActionBounce1 = LOW,
           ActionBounce2 = HIGH, Dial = d, serialMetro_check = False\<rparr> s) s) = 5
   \<and> pins (run (loop \<lparr>AlarmLSB = HIGH, AlarmMSB = HIGH, ActionBounce1 = LOW,
           ActionBounce2 = HIGH, Dial = d, serialMetro_check = False\<rparr> s) s)
         LaserMOSignalPin = HIGH
   \<and> pins (run (loop \<lparr>AlarmLSB = HIGH, AlarmMSB = HIGH, ActionBounce1 = LOW,
           ActionBounce2 = HIGH, Dial = d, serialMetro_check = False\<rparr> s) s)
         LaserONSignalPin = HIGH
   \<and> filter (laser_enable_op \<circ> snd)
        (stamp t (loop \<lparr>AlarmLSB = LOW, AlarmMSB = HIGH, ActionBounce1 = LOW,
           ActionBounce2 = HIGH, Dial = d, serialMetro_check = False\<rparr>
           (run (loop \<lparr>AlarmLSB = HIGH, AlarmMSB = HIGH, ActionBounce1 = LOW,
              ActionBounce2 = HIGH, Dial = d, serialMetro_check = False\<rparr> s) s))) =
      [(t, DigitalWrite LaserMOSignalPin LOW), (t, DigitalWrite LaserONSignalPin LOW)]"
  by (simp add: after_setup after_alarm_pass startup_sequence_skipped
      reach.pass [OF reach.start])

end
